theory Spec2Isabelle
  imports Complex_Main "HOL-Library.Word" "HOL-Library.AList"
    "HOL-Library.Char_ord" "HOL-Library.List_Lexorder"
begin

section \<open>Common types\<close>

text \<open>
  Go byte slices and strings are both sequences of bytes. An Isabelle \<open>char\<close> is a
  byte, so both are modelled as \<open>char list\<close>. A nil byte slice and an empty one are
  the same value \<open>[]\<close>: the code under study never tells them apart.
\<close>

type_synonym bytes = "char list"

text \<open>
  The error values that the operating system and the libraries hand to the code.
  The code only ever tests them against nil and passes them on.
\<close>

datatype error =
    ENOENT        \<comment> \<open>no such file or directory\<close>
  | ENOTDIR       \<comment> \<open>not a directory\<close>
  | EISDIR        \<comment> \<open>is a directory\<close>
  | ENOTEMPTY     \<comment> \<open>directory not empty\<close>
  | EINVAL        \<comment> \<open>invalid argument\<close>
  | EACCES        \<comment> \<open>permission denied\<close>
  | EIO           \<comment> \<open>input/output error\<close>
  | ErrSyntax     \<comment> \<open>strconv: invalid syntax\<close>
  | ErrRange      \<comment> \<open>strconv: value out of range\<close>
  | ErrCorrupt    \<comment> \<open>snappy: corrupt input\<close>
  | ErrBadPattern \<comment> \<open>filepath: syntax error in pattern\<close>
  | ErrStore      \<comment> \<open>an error of the embedded key-value engine\<close>

text \<open>
  Go's \<open>int\<close> and \<open>int64\<close> are 64-bit two's complement numbers. They are modelled as
  mathematical integers; every arithmetic result is brought back into range by
  \<open>wrap64\<close>, which is what the machine does on overflow.
\<close>

definition wrap64 :: "int \<Rightarrow> int" where
  "wrap64 i = (i + 2 ^ 63) mod 2 ^ 64 - 2 ^ 63"

definition in_int64 :: "int \<Rightarrow> bool" where
  "in_int64 i = (- (2 ^ 63) \<le> i \<and> i < 2 ^ 63)"

text \<open>
  The conversion \<open>float64(size)\<close> of an int64. A float64 has a significand of 53 bits:
  a number below \<open>2 ^ 53\<close> in absolute value is kept, a larger one loses its low bits
  and is rounded to the nearest float64, to the even significand in a tie.
  \<open>float64_shift\<close> counts the low bits that do not fit. The float64 is given as the
  real number that it denotes.
\<close>

function float64_shift :: "int \<Rightarrow> nat" where
  "float64_shift a = (if a < 2 ^ 53 then 0 else Suc (float64_shift (a div 2)))"
  by pat_completeness auto
termination
  by (relation "measure nat") auto

declare float64_shift.simps [simp del]

definition float64 :: "int \<Rightarrow> real" where
  "float64 i =
     (let a = \<bar>i\<bar>;
          e = float64_shift a;
          q = a div 2 ^ e;
          r = a mod 2 ^ e;
          q' = (if 2 ^ e < 2 * r \<or> (2 * r = 2 ^ e \<and> odd q) then q + 1 else q)
      in of_int (sgn i * q' * 2 ^ e))"


section \<open>Library functions of Go used by the code\<close>

subsection \<open>strings, strconv and fmt\<close>

definition strings_HasPrefix :: "string \<Rightarrow> string \<Rightarrow> bool" where
  "strings_HasPrefix s prefix = (take (length prefix) s = prefix)"

definition strings_HasSuffix :: "string \<Rightarrow> string \<Rightarrow> bool" where
  "strings_HasSuffix s suffix =
     (length suffix \<le> length s \<and> drop (length s - length suffix) s = suffix)"

fun strings_Join :: "string list \<Rightarrow> string \<Rightarrow> string" where
  "strings_Join [] sep = []"
| "strings_Join [e] sep = e"
| "strings_Join (e # e' # es) sep = e @ sep @ strings_Join (e' # es) sep"

text \<open>
  \<open>strings.Replace(s, old, new, n)\<close> replaces the first \<open>n\<close> non-overlapping
  occurrences of \<open>old\<close>, all of them when \<open>n < 0\<close>. The code calls it with a non-empty
  \<open>old\<close> only; for an empty \<open>old\<close> (where Go inserts \<open>new\<close> between the characters)
  the model returns \<open>s\<close>.
\<close>

function strings_Replace :: "string \<Rightarrow> string \<Rightarrow> string \<Rightarrow> int \<Rightarrow> string" where
  "strings_Replace s old new n =
     (if s = [] \<or> old = [] \<or> n = 0 then s
      else if strings_HasPrefix s old
        then new @ strings_Replace (drop (length old) s) old new (if n < 0 then n else n - 1)
      else hd s # strings_Replace (tl s) old new n)"
  by pat_completeness auto
termination
  by (relation "measure (\<lambda>(s, old, new, n). length s)") auto

declare strings_Replace.simps [simp del]

definition strings_ReplaceAll :: "string \<Rightarrow> string \<Rightarrow> string \<Rightarrow> string" where
  "strings_ReplaceAll s old new = strings_Replace s old new (- 1)"

definition is_digit :: "char \<Rightarrow> bool" where
  "is_digit c = ((48::int) \<le> of_char c \<and> (of_char c :: int) \<le> 57)"

definition digit_value :: "char \<Rightarrow> int" where
  "digit_value c = of_char c - 48"

text \<open>
  \<open>strconv.Atoi\<close>: an optional sign, then one or more decimal digits and nothing else;
  a value outside the 64-bit range is a range error.
\<close>

definition strconv_Atoi :: "string \<Rightarrow> error + int" where
  "strconv_Atoi s =
     (let neg = (s \<noteq> [] \<and> hd s = CHR ''-'');
          digits = (if s \<noteq> [] \<and> (hd s = CHR ''-'' \<or> hd s = CHR ''+'') then tl s else s)
      in if digits = [] \<or> \<not> list_all is_digit digits then Inl ErrSyntax
         else
           let n = foldl (\<lambda>n ch. n * 10 + digit_value ch) 0 digits;
               v = (if neg then - n else n)
           in if in_int64 v then Inr v else Inl ErrRange)"

text \<open>
  The verb \<open>%d\<close> of \<open>fmt.Sprintf\<close>: \<open>format_digits\<close> writes a number that is not
  negative, \<open>format_d\<close> puts the sign in front.
\<close>

function format_digits :: "int \<Rightarrow> string" where
  "format_digits u =
     (if u < 10 then [char_of (48 + u)]
      else format_digits (u div 10) @ [char_of (48 + u mod 10)])"
  by pat_completeness auto
termination
  by (relation "measure nat") auto

declare format_digits.simps [simp del]

definition format_d :: "int \<Rightarrow> string" where
  "format_d i = (if i < 0 then CHR ''-'' # format_digits (- i) else format_digits i)"

definition sort_Ints :: "int list \<Rightarrow> int list" where
  "sort_Ints ids = sort ids"

subsection \<open>path/filepath, on Unix\<close>

text \<open>
  \<open>elements\<close> cuts a path at its separators. \<open>clean_elements\<close> is the loop of
  \<open>filepath.Clean\<close>: it drops empty and \<open>.\<close> elements, and lets a \<open>..\<close> element
  remove the element before it, unless that is a \<open>..\<close> itself or the root. The
  elements written so far are kept in reverse.
\<close>

fun elements :: "string \<Rightarrow> string list" where
  "elements [] = [[]]"
| "elements (c # cs) =
     (if c = CHR ''/'' then [] # elements cs
      else (case elements cs of [] \<Rightarrow> [[c]] | e # es \<Rightarrow> (c # e) # es))"

fun clean_elements :: "bool \<Rightarrow> string list \<Rightarrow> string list \<Rightarrow> string list" where
  "clean_elements rooted out [] = rev out"
| "clean_elements rooted out (e # es) =
     (if e = [] \<or> e = ''.'' then clean_elements rooted out es
      else if e = ''..'' then
        (case out of
           [] \<Rightarrow> if rooted then clean_elements rooted [] es
                 else clean_elements rooted [''..''] es
         | el # out' \<Rightarrow>
             if el = ''..'' then clean_elements rooted (''..'' # out) es
             else clean_elements rooted out' es)
      else clean_elements rooted (e # out) es)"

definition filepath_Clean :: "string \<Rightarrow> string" where
  "filepath_Clean path =
     (if path = [] then ''.''
      else
        let rooted = (hd path = CHR ''/'');
            out = strings_Join (clean_elements rooted [] (elements path)) ''/''
        in if rooted then CHR ''/'' # out
           else if out = [] then ''.'' else out)"

text \<open>
  \<open>filepath.Join\<close> ignores leading empty elements, joins the rest with the separator
  and cleans the result.
\<close>

fun filepath_Join :: "string list \<Rightarrow> string" where
  "filepath_Join [] = []"
| "filepath_Join (e # es) =
     (if e = [] then filepath_Join es else filepath_Clean (strings_Join (e # es) ''/''))"

definition filepath_Base :: "string \<Rightarrow> string" where
  "filepath_Base path =
     (if path = [] then ''.''
      else
        let stripped = rev (dropWhile (\<lambda>c. c = CHR ''/'') (rev path));
            last_element = rev (takeWhile (\<lambda>c. c \<noteq> CHR ''/'') (rev stripped))
        in if last_element = [] then ''/'' else last_element)"

text \<open>A path element that \<open>Clean\<close> keeps as it is: a file name.\<close>

definition plain_element :: "string \<Rightarrow> bool" where
  "plain_element x = (x \<noteq> [] \<and> CHR ''/'' \<notin> set x \<and> x \<noteq> ''.'' \<and> x \<noteq> ''..'')"

text \<open>The characters that make a path a pattern: \<open>*\<close>, \<open>?\<close>, \<open>[\<close> and the backslash.\<close>

definition hasMeta :: "string \<Rightarrow> bool" where
  "hasMeta path = list_ex (\<lambda>c. c \<in> set [CHR ''*'', CHR ''?'', CHR ''['', CHR 0x5C]) path"

subsection \<open>filepath.Walk\<close>

text \<open>
  For the directory walk the file system is seen as a tree. A node is what
  \<open>os.Lstat\<close> and the listing of a directory find at a path: nothing that can be
  examined (\<open>Missing\<close>, with Lstat's error), a file that is not a directory, with its
  size, a directory with its own size and its entries in name order, or a directory
  that cannot be listed (\<open>Unreadable\<close>, with the error of the listing).
\<close>

record FileInfo =
  IsDir :: bool
  Size :: int

datatype node =
    Missing error
  | Regular int
  | Directory int "(string \<times> node) list"
  | Unreadable int error

text \<open>
  The function that \<open>Walk\<close> calls at every step gets the path, the file information
  (nil when Lstat failed) and the error of the step; it returns an error to stop the
  walk. A Go closure updates the variables it captures: they are the state \<open>'s\<close> that
  the function takes and returns. The two special values \<open>SkipDir\<close> and \<open>SkipAll\<close> are
  left out: the operating system never reports them, and the function studied here
  returns nothing but the error it was given.
\<close>

type_synonym 's WalkFunc =
  "string \<Rightarrow> FileInfo option \<Rightarrow> error option \<Rightarrow> 's \<Rightarrow> error option \<times> 's"

function walk :: "'s WalkFunc \<Rightarrow> string \<Rightarrow> node \<Rightarrow> 's \<Rightarrow> error option \<times> 's"
  and walk_names ::
    "'s WalkFunc \<Rightarrow> string \<Rightarrow> (string \<times> node) list \<Rightarrow> 's \<Rightarrow> error option \<times> 's"
where
  "walk walkFn path (Missing err) s = walkFn path None (Some err) s"
| "walk walkFn path (Regular n) s = walkFn path (Some \<lparr>IsDir = False, Size = n\<rparr>) None s"
| "walk walkFn path (Unreadable n err) s =
     walkFn path (Some \<lparr>IsDir = True, Size = n\<rparr>) (Some err) s"
| "walk walkFn path (Directory n names) s =
     (case walkFn path (Some \<lparr>IsDir = True, Size = n\<rparr>) None s of
        (Some err1, s') \<Rightarrow> (Some err1, s')
      | (None, s') \<Rightarrow> walk_names walkFn path names s')"
| "walk_names walkFn path [] s = (None, s)"
| "walk_names walkFn path ((name, child) # names) s =
     (case walk walkFn (filepath_Join [path, name]) child s of
        (Some err, s') \<Rightarrow> (Some err, s')
      | (None, s') \<Rightarrow> walk_names walkFn path names s')"
  by pat_completeness auto
termination
  by (relation "measure (\<lambda>x. case x of
        Inl (f, p, n, s) \<Rightarrow> size n
      | Inr (f, p, ns, s) \<Rightarrow> size_list (size_prod (\<lambda>_. 0) size) ns)") auto

definition filepath_Walk :: "string \<Rightarrow> node \<Rightarrow> 's WalkFunc \<Rightarrow> 's \<Rightarrow> error option \<times> 's" where
  "filepath_Walk rootpath at_root fn s = walk fn rootpath at_root s"

subsection \<open>The file system\<close>

text \<open>
  The file system is a finite table from path names to what is found there: a
  regular file with its content, or a directory. It is kept as an association list,
  read with \<open>map_of\<close> and changed with \<open>AList.update\<close> and \<open>AList.delete\<close>. The root
  and the working directory always exist and are not in the table. What the model
  leaves out:
  \<^item> a name is looked up as it is spelled; the queue spells every name with
    \<open>filepath.Join\<close>, which cleans it, and a table of a real directory tree has clean
    names whose parent directories are in the table;
  \<^item> symbolic links, permissions, full disks and other failures of the device.
\<close>

datatype entry = File bytes | Dir

type_synonym filesystem = "(string \<times> entry) list"

text \<open>\<open>filepath.Dir\<close>: the path up to its last separator, cleaned.\<close>

definition filepath_Dir :: "string \<Rightarrow> string" where
  "filepath_Dir path = filepath_Clean (rev (dropWhile (\<lambda>c. c \<noteq> CHR ''/'') (rev path)))"

definition is_dir :: "filesystem \<Rightarrow> string \<Rightarrow> bool" where
  "is_dir fs path = (path = ''/'' \<or> path = ''.'' \<or> map_of fs path = Some Dir)"

definition is_file :: "filesystem \<Rightarrow> string \<Rightarrow> bool" where
  "is_file fs path = (case map_of fs path of Some (File b) \<Rightarrow> True | _ \<Rightarrow> False)"

definition has_entries :: "filesystem \<Rightarrow> string \<Rightarrow> bool" where
  "has_entries fs path = list_ex (\<lambda>k. k \<noteq> path \<and> filepath_Dir k = path) (map fst fs)"

definition os_ReadFile :: "filesystem \<Rightarrow> string \<Rightarrow> error + bytes" where
  "os_ReadFile fs name =
     (case map_of fs name of
        Some (File b) \<Rightarrow> Inr b
      | Some Dir \<Rightarrow> Inl EISDIR
      | None \<Rightarrow> if is_dir fs name then Inl EISDIR else Inl ENOENT)"

definition os_WriteFile :: "filesystem \<Rightarrow> string \<Rightarrow> bytes \<Rightarrow> error option \<times> filesystem" where
  "os_WriteFile fs name data =
     (if name = [] then (Some ENOENT, fs)
      else if is_dir fs name then (Some EISDIR, fs)
      else if is_file fs (filepath_Dir name) then (Some ENOTDIR, fs)
      else if \<not> is_dir fs (filepath_Dir name) then (Some ENOENT, fs)
      else (None, AList.update name (File data) fs))"

text \<open>\<open>os.Remove\<close> removes a file or an empty directory.\<close>

definition os_Remove :: "filesystem \<Rightarrow> string \<Rightarrow> error option \<times> filesystem" where
  "os_Remove fs name =
     (case map_of fs name of
        None \<Rightarrow> (Some ENOENT, fs)
      | Some (File b) \<Rightarrow> (None, AList.delete name fs)
      | Some Dir \<Rightarrow>
          if has_entries fs name then (Some ENOTEMPTY, fs)
          else (None, AList.delete name fs))"

text \<open>
  \<open>os.Rename\<close> moves a file, replacing a file of the new name; it moves a directory
  with all that is below it, onto a name that is free or an empty directory.
\<close>

definition below :: "string \<Rightarrow> string \<Rightarrow> bool" where
  "below dir name = strings_HasPrefix name (dir @ ''/'')"

definition os_Rename :: "filesystem \<Rightarrow> string \<Rightarrow> string \<Rightarrow> error option \<times> filesystem" where
  "os_Rename fs oldpath newpath =
     (case map_of fs oldpath of
        None \<Rightarrow> (Some ENOENT, fs)
      | Some (File b) \<Rightarrow>
          if newpath = [] then (Some ENOENT, fs)
          else if is_dir fs newpath then (Some EISDIR, fs)
          else if is_file fs (filepath_Dir newpath) then (Some ENOTDIR, fs)
          else if \<not> is_dir fs (filepath_Dir newpath) then (Some ENOENT, fs)
          else (None, AList.update newpath (File b) (AList.delete oldpath fs))
      | Some Dir \<Rightarrow>
          if newpath = [] then (Some ENOENT, fs)
          else if newpath = oldpath then (None, fs)
          else if below oldpath newpath then (Some EINVAL, fs)
          else if is_file fs newpath \<or> is_file fs (filepath_Dir newpath) then (Some ENOTDIR, fs)
          else if \<not> is_dir fs (filepath_Dir newpath) then (Some ENOENT, fs)
          else if has_entries fs newpath then (Some ENOTEMPTY, fs)
          else (None,
            map (\<lambda>(k, e). if k = oldpath \<or> below oldpath k
                           then (newpath @ drop (length oldpath) k, e) else (k, e))
              (AList.delete newpath fs)))"

text \<open>
  \<open>os.MkdirAll\<close> creates the directory and the parents that are missing. The
  \<open>ancestors\<close> of a clean path are the path itself and the directories above it,
  from the top. The call fails when one of them is a regular file.
\<close>

definition ancestors :: "string \<Rightarrow> string list" where
  "ancestors path =
     map (\<lambda>n. take n path)
       (filter (\<lambda>n. n = length path \<or> path ! n = CHR ''/'') [1..<Suc (length path)])"

definition os_MkdirAll :: "filesystem \<Rightarrow> string \<Rightarrow> error option \<times> filesystem" where
  "os_MkdirAll fs path =
     (if path = [] then (Some ENOENT, fs)
      else if list_ex (is_file fs) (ancestors (filepath_Clean path)) then (Some ENOTDIR, fs)
      else (None,
        fold (\<lambda>a fs'. if is_dir fs' a then fs' else AList.update a Dir fs')
          (ancestors (filepath_Clean path)) fs))"

text \<open>
  \<open>filepath_Glob fs directory suffix\<close> stands for the call
  \<open>filepath.Glob(filepath.Join(directory, "*" + suffix))\<close>, for a suffix without
  pattern characters. For a directory without pattern characters Go reads the names
  in the directory \<open>Clean(directory)\<close>, sorts them, and returns \<open>Join(directory, n)\<close>
  for every name \<open>n\<close> that ends in the suffix, whether it names a file or a directory.
  In the table the entries of the directory are the names spelled
  \<open>Join(directory, Base name)\<close>; \<open>glob_match\<close> says that a name is such an entry and
  that its base ends in the suffix.

  A directory with pattern characters makes Go match several directories, or fail
  with \<open>ErrBadPattern\<close> when the pattern is malformed. Only the failure is
  represented, and every theorem below assumes a directory without pattern
  characters.
\<close>

definition glob_match :: "string \<Rightarrow> string \<Rightarrow> string \<Rightarrow> bool" where
  "glob_match directory suffix name =
     (strings_HasSuffix (filepath_Base name) suffix
      \<and> filepath_Join [directory, filepath_Base name] = name)"

definition filepath_Glob :: "filesystem \<Rightarrow> string \<Rightarrow> string \<Rightarrow> error + string list" where
  "filepath_Glob fs directory suffix =
     (if hasMeta directory then Inl ErrBadPattern
      else Inr (sort_key filepath_Base
                  (filter (glob_match directory suffix) (remdups (map fst fs)))))"

text \<open>
  The block compression library (github.com/golang/snappy) is not part of the
  repository. The queue functions take its two functions as a parameter; what the
  theorems need of them is stated as a hypothesis.
\<close>

record snappy =
  snappy_Encode :: "bytes \<Rightarrow> bytes"
  snappy_Decode :: "bytes \<Rightarrow> error + bytes"


section \<open>The durable queue (package linear, type queue)\<close>

text \<open>
  Every method takes the queue's lock for its whole body, so a method is one step.
  A method takes the queue and the file system and returns its results together
  with the queue and the file system it leaves behind (when it changes them).
\<close>

definition clearUncommitted :: "filesystem \<Rightarrow> string \<Rightarrow> filesystem" where
  "clearUncommitted fs directory =
     (case filepath_Glob fs directory ''.uncommitted'' of
        Inl err \<Rightarrow> fs
      | Inr matches \<Rightarrow> fold (\<lambda>x fs'. snd (os_Remove fs' x)) matches fs)"

text \<open>
  The loop that \<open>newQueue\<close> and \<open>Next\<close> both run over the matches: \<open>ids\<close> starts as
  zeros, and a name that \<open>Atoi\<close> rejects leaves its zero in place.
\<close>

definition committed_ids :: "string list \<Rightarrow> int list" where
  "committed_ids matches =
     map (\<lambda>x. case strconv_Atoi (strings_ReplaceAll (filepath_Base x) ''.committed'' []) of
                 Inl err \<Rightarrow> 0
               | Inr idx \<Rightarrow> idx) matches"

record queue =
  directory :: string
  maxindex :: int

definition newQueue :: "filesystem \<Rightarrow> string \<Rightarrow> error + queue \<times> filesystem" where
  "newQueue fs dir =
     (case os_MkdirAll fs dir of
        (Some err, fs') \<Rightarrow> Inl err
      | (None, fs') \<Rightarrow>
          let fs'' = clearUncommitted fs' dir;
              matches = (case filepath_Glob fs'' dir ''.committed'' of
                           Inl err \<Rightarrow> [] | Inr ms \<Rightarrow> ms);
              ids = sort_Ints (committed_ids matches);
              currentindex = (if length ids > 0 then ids ! (length ids - 1) else 0)
          in Inr (\<lparr>directory = dir, maxindex = currentindex\<rparr>, fs''))"

definition writeFile ::
  "snappy \<Rightarrow> filesystem \<Rightarrow> string \<Rightarrow> bytes \<Rightarrow> error option \<times> filesystem" where
  "writeFile codec fs name data = os_WriteFile fs name (snappy_Encode codec data)"

text \<open>
  \<open>readFile\<close> returns the buffer it was given when the read fails, and what
  \<open>snappy.Decode\<close> returns otherwise (nil with an error, or the decoded bytes).
\<close>

definition readFile :: "snappy \<Rightarrow> filesystem \<Rightarrow> string \<Rightarrow> bytes \<Rightarrow> bytes \<times> error option" where
  "readFile codec fs name enc =
     (case os_ReadFile fs name of
        Inl err \<Rightarrow> (enc, Some err)
      | Inr bb \<Rightarrow>
          (case snappy_Decode codec bb of
             Inl err \<Rightarrow> ([], Some err)
           | Inr enc' \<Rightarrow> (enc', None)))"

definition AddCommited ::
  "snappy \<Rightarrow> queue \<Rightarrow> filesystem \<Rightarrow> bytes \<Rightarrow> (string \<times> error option) \<times> queue \<times> filesystem" where
  "AddCommited codec q fs data =
     (let q' = q\<lparr>maxindex := wrap64 (maxindex q + 1)\<rparr>;
          name = filepath_Join [directory q', format_d (maxindex q') @ ''.committed''];
          (err, fs') = writeFile codec fs name data
      in ((name, err), q', fs'))"

definition AddUncommited ::
  "snappy \<Rightarrow> queue \<Rightarrow> filesystem \<Rightarrow> bytes \<Rightarrow> (string \<times> error option) \<times> queue \<times> filesystem" where
  "AddUncommited codec q fs data =
     (let q' = q\<lparr>maxindex := wrap64 (maxindex q + 1)\<rparr>;
          name = filepath_Join [directory q', format_d (maxindex q') @ ''.uncommitted''];
          (err, fs') = writeFile codec fs name data
      in ((name, err), q', fs'))"

fun Commit :: "queue \<Rightarrow> filesystem \<Rightarrow> string list \<Rightarrow> error option \<times> filesystem" where
  "Commit q fs [] = (None, fs)"
| "Commit q fs (h # handles) =
     (let newname = strings_Replace h ''uncommitted'' ''committed'' 1 in
      case os_Rename fs (filepath_Join [directory q, h])
                        (filepath_Join [directory q, newname]) of
        (Some err, fs') \<Rightarrow> (Some err, fs')
      | (None, fs') \<Rightarrow> Commit q fs' handles)"

definition Next ::
  "snappy \<Rightarrow> queue \<Rightarrow> filesystem \<Rightarrow> bytes \<Rightarrow> bytes \<times> string \<times> bool \<times> bool" where
  "Next codec q fs enc =
     (case filepath_Glob fs (directory q) ''.committed'' of
        Inl err \<Rightarrow> ([], [], False, False)
      | Inr matches \<Rightarrow>
          if length matches = 0 then ([], [], False, False)
          else
            let ids = sort_Ints (committed_ids matches);
                name = filepath_Join [directory q, format_d (ids ! 0) @ ''.committed'']
            in case readFile codec fs name enc of
                 (enc', Some err) \<Rightarrow> ([], [], False, False)
               | (enc', None) \<Rightarrow> (enc', name, True, length ids > 1))"

definition Delete :: "queue \<Rightarrow> filesystem \<Rightarrow> string \<Rightarrow> filesystem" where
  "Delete q fs name = snd (os_Remove fs name)"

text \<open>
  The index that the name of a Committed file stands for: the number that the loop
  of \<open>Next\<close> reads off the name, provided that the queue writes exactly this name
  for that number. A file that the queue has written has such a name.
\<close>

definition entry_index :: "string \<Rightarrow> string \<Rightarrow> int option" where
  "entry_index dir name =
     (case strconv_Atoi (strings_ReplaceAll (filepath_Base name) ''.committed'' []) of
        Inl err \<Rightarrow> None
      | Inr idx \<Rightarrow>
          if filepath_Join [dir, format_d idx @ ''.committed''] = name then Some idx
          else None)"

text \<open>
  A codec to evaluate the queue on concrete inputs: it puts one marker byte in front
  of the data, and rejects what does not start with the marker. It stands in for the
  compression library in examples only.
\<close>

definition marker_codec :: snappy where
  "marker_codec =
     \<lparr>snappy_Encode = (\<lambda>data. CHR ''s'' # data),
      snappy_Decode = (\<lambda>bb. case bb of
                               [] \<Rightarrow> Inl ErrCorrupt
                             | c # data \<Rightarrow> if c = CHR ''s'' then Inr data else Inl ErrCorrupt)\<rparr>"


section \<open>The store coordinator (package simple, type dbstore)\<close>

text \<open>
  Modelled from the spec: the declaration of the type \<open>Bookmark\<close> is not among the
  sources. The spec describes a bookmark as the last key of the sample store that a
  consumer has processed, and sample keys as unsigned 64-bit numbers; the code builds
  the value \<open>Bookmark{Key: 1}\<close>.
\<close>

record Bookmark =
  Key :: "64 word"

text \<open>
  A value of Go's type \<open>any\<close> as the stores return it: the interface value nil is
  \<open>None\<close>; otherwise the value is a pointer to a bookmark or a value of one of the
  sample kinds, whose content the coordinator never inspects.
\<close>

datatype signal = BookmarkValue Bookmark | SampleValue bytes

type_synonym any = "signal option"

text \<open>
  Modelled from the spec: the interface \<open>SignalDB\<close> is not among the sources. Of its
  methods the theorems below need the two point reads, each returning a value, a found
  flag and an error. A store is given by what these reads answer.
\<close>

record SignalDB =
  GetValueByString :: "string \<Rightarrow> any \<times> bool \<times> error option"
  GetValueByKey :: "64 word \<Rightarrow> any \<times> bool \<times> error option"

record dbstore =
  store_directory :: string
  sampleDB :: SignalDB
  bookmark :: SignalDB

text \<open>
  The type assertion \<open>bk.(*Bookmark)\<close> panics when the value is of another type; a
  panic is the left summand of the result.
\<close>

datatype panic = TypeAssertion

definition GetBookmark :: "dbstore \<Rightarrow> string \<Rightarrow> panic + Bookmark \<times> bool" where
  "GetBookmark dbs key =
     (case GetValueByString (bookmark dbs) key of
        (bk, found, _) \<Rightarrow>
          (case bk of
             None \<Rightarrow> Inr (\<lparr>Key = 1\<rparr>, False)
           | Some (BookmarkValue b) \<Rightarrow> Inr (b, found)
           | Some (SampleValue _) \<Rightarrow> Inl TypeAssertion))"

text \<open>
  \<open>GetSignal\<close> writes to the logger; the lines it writes are returned next to its two
  results. The latency metric it observes is not modelled.
\<close>

datatype log_line = ErrorFindingKey error "64 word"

definition GetSignal :: "dbstore \<Rightarrow> 64 word \<Rightarrow> (any \<times> bool) \<times> log_line list" where
  "GetSignal dbs key =
     (case GetValueByKey (sampleDB dbs) key of
        (val, found, err) \<Rightarrow>
          (case err of
             Some e \<Rightarrow> ((None, False), [ErrorFindingKey e key])
           | None \<Rightarrow> ((val, found), [])))"


text \<open>
  \<open>DirSize\<close> walks the tree below \<open>path\<close>; \<open>at_path\<close> is what the file system holds
  there. The closure it passes to \<open>Walk\<close> captures the variable \<open>size\<close>, an int64
  (\<open>sz\<close> below). Walk never passes a nil file information without an error; the model
  leaves the size alone in that case. The result of the walk is discarded, and the
  final size is converted to a float64.
\<close>

definition DirSize_step :: "int WalkFunc" where
  "DirSize_step p info err sz =
     (case err of
        Some e \<Rightarrow> (Some e, sz)
      | None \<Rightarrow>
          (case info of
             None \<Rightarrow> (None, sz)
           | Some i \<Rightarrow> (None, if \<not> IsDir i then wrap64 (sz + Size i) else sz)))"

definition DirSize :: "string \<Rightarrow> node \<Rightarrow> real" where
  "DirSize path at_path = float64 (snd (filepath_Walk path at_path DirSize_step 0))"

definition getFileSize :: "dbstore \<Rightarrow> node \<Rightarrow> real" where
  "getFileSize dbs at_directory = DirSize (store_directory dbs) at_directory"

text \<open>
  The steps of a whole walk, as pairs of the file information and the error that the
  function is called with, and the sum that \<open>DirSize\<close> forms over a list of steps.
  They state what \<open>DirSize\<close> returns when a step fails.
\<close>

fun steps :: "node \<Rightarrow> (FileInfo option \<times> error option) list"
  and steps_names :: "(string \<times> node) list \<Rightarrow> (FileInfo option \<times> error option) list"
where
  "steps (Missing err) = [(None, Some err)]"
| "steps (Regular n) = [(Some \<lparr>IsDir = False, Size = n\<rparr>, None)]"
| "steps (Unreadable n err) = [(Some \<lparr>IsDir = True, Size = n\<rparr>, Some err)]"
| "steps (Directory n names) = (Some \<lparr>IsDir = True, Size = n\<rparr>, None) # steps_names names"
| "steps_names [] = []"
| "steps_names ((name, child) # names) = steps child @ steps_names names"

definition step_ok :: "FileInfo option \<times> error option \<Rightarrow> bool" where
  "step_ok st = (snd st = None)"

definition counted :: "int \<Rightarrow> FileInfo option \<times> error option \<Rightarrow> int" where
  "counted sz st =
     (case fst st of
        None \<Rightarrow> sz
      | Some i \<Rightarrow> if \<not> IsDir i then wrap64 (sz + Size i) else sz)"


definition first_error :: "(FileInfo option \<times> error option) list \<Rightarrow> error option" where
  "first_error sts = (case dropWhile step_ok sts of [] \<Rightarrow> None | st # _ \<Rightarrow> snd st)"


section \<open>Properties of the store coordinator\<close>

text \<open>
  C7 (bookmark default). Whenever the bookmark store answers the read of a key with no
  value (whatever found flag and error come with it), \<open>GetBookmark\<close> returns the
  default bookmark, whose key is 1, and found = false. The result is a normal return:
  the function has no error result and does not panic.
\<close>

theorem GetBookmark_default:
  assumes "fst (GetValueByString (bookmark dbs) key) = None"
  shows "GetBookmark dbs key = Inr (\<lparr>Key = 1\<rparr>, False)"
proof (cases "GetValueByString (bookmark dbs) key")
  case (fields bk found err)
  with assms have "bk = None" by simp
  with fields show ?thesis by (simp add: GetBookmark_def)
qed

text \<open>
  A store that knows no key, and a store whose read fails: both yield the default.
\<close>

theorem GetBookmark_default_witness:
  "GetBookmark \<lparr>store_directory = ''/data'',
      sampleDB = \<lparr>GetValueByString = (\<lambda>k. (None, False, None)),
                  GetValueByKey = (\<lambda>k. (None, False, None))\<rparr>,
      bookmark = \<lparr>GetValueByString = (\<lambda>k. (None, False, None)),
                  GetValueByKey = (\<lambda>k. (None, False, None))\<rparr>\<rparr> ''consumer''
     = Inr (\<lparr>Key = 1\<rparr>, False)
   \<and> GetBookmark \<lparr>store_directory = ''/data'',
      sampleDB = \<lparr>GetValueByString = (\<lambda>k. (None, False, None)),
                  GetValueByKey = (\<lambda>k. (None, False, None))\<rparr>,
      bookmark = \<lparr>GetValueByString = (\<lambda>k. (None, False, Some ErrStore)),
                  GetValueByKey = (\<lambda>k. (None, False, None))\<rparr>\<rparr> ''consumer''
     = Inr (\<lparr>Key = 1\<rparr>, False)"
proof
  show "GetBookmark \<lparr>store_directory = ''/data'',
      sampleDB = \<lparr>GetValueByString = (\<lambda>k. (None, False, None)),
                  GetValueByKey = (\<lambda>k. (None, False, None))\<rparr>,
      bookmark = \<lparr>GetValueByString = (\<lambda>k. (None, False, None)),
                  GetValueByKey = (\<lambda>k. (None, False, None))\<rparr>\<rparr> ''consumer''
     = Inr (\<lparr>Key = 1\<rparr>, False)"
    by (rule GetBookmark_default) simp
  show "GetBookmark \<lparr>store_directory = ''/data'',
      sampleDB = \<lparr>GetValueByString = (\<lambda>k. (None, False, None)),
                  GetValueByKey = (\<lambda>k. (None, False, None))\<rparr>,
      bookmark = \<lparr>GetValueByString = (\<lambda>k. (None, False, Some ErrStore)),
                  GetValueByKey = (\<lambda>k. (None, False, None))\<rparr>\<rparr> ''consumer''
     = Inr (\<lparr>Key = 1\<rparr>, False)"
    by (rule GetBookmark_default) simp
qed

text \<open>
  C8 (lossy sample lookup). Let the sample store answer the read of \<open>key\<close> with
  \<open>(val, found, err)\<close>. If \<open>err\<close> is an error, \<open>GetSignal\<close> returns (nil, false) and
  writes one line to the log; the error is not part of what it returns. If \<open>err\<close> is
  nil, it returns \<open>(val, found)\<close> unchanged and logs nothing.
\<close>

theorem GetSignal_lossy:
  assumes "GetValueByKey (sampleDB dbs) key = (val, found, err)"
  shows "(\<forall>e. err = Some e \<longrightarrow>
            GetSignal dbs key = ((None, False), [ErrorFindingKey e key]))
       \<and> (err = None \<longrightarrow> GetSignal dbs key = ((val, found), []))"
  using assms by (simp add: GetSignal_def)

theorem GetSignal_lossy_witness:
  "GetSignal \<lparr>store_directory = ''/data'',
      sampleDB = \<lparr>GetValueByString = (\<lambda>k. (None, False, None)),
                  GetValueByKey = (\<lambda>k. (Some (SampleValue ''x''), True, Some EIO))\<rparr>,
      bookmark = \<lparr>GetValueByString = (\<lambda>k. (None, False, None)),
                  GetValueByKey = (\<lambda>k. (None, False, None))\<rparr>\<rparr> 7
     = ((None, False), [ErrorFindingKey EIO 7])
   \<and> GetSignal \<lparr>store_directory = ''/data'',
      sampleDB = \<lparr>GetValueByString = (\<lambda>k. (None, False, None)),
                  GetValueByKey = (\<lambda>k. (Some (SampleValue ''x''), True, None))\<rparr>,
      bookmark = \<lparr>GetValueByString = (\<lambda>k. (None, False, None)),
                  GetValueByKey = (\<lambda>k. (None, False, None))\<rparr>\<rparr> 7
     = ((Some (SampleValue ''x''), True), [])"
proof
  have "GetValueByKey (sampleDB \<lparr>store_directory = ''/data'',
      sampleDB = \<lparr>GetValueByString = (\<lambda>k. (None, False, None)),
                  GetValueByKey = (\<lambda>k. (Some (SampleValue ''x''), True, Some EIO))\<rparr>,
      bookmark = \<lparr>GetValueByString = (\<lambda>k. (None, False, None)),
                  GetValueByKey = (\<lambda>k. (None, False, None))\<rparr>\<rparr>) 7
     = (Some (SampleValue ''x''), True, Some EIO)"
    by simp
  from GetSignal_lossy [OF this]
  show "GetSignal \<lparr>store_directory = ''/data'',
      sampleDB = \<lparr>GetValueByString = (\<lambda>k. (None, False, None)),
                  GetValueByKey = (\<lambda>k. (Some (SampleValue ''x''), True, Some EIO))\<rparr>,
      bookmark = \<lparr>GetValueByString = (\<lambda>k. (None, False, None)),
                  GetValueByKey = (\<lambda>k. (None, False, None))\<rparr>\<rparr> 7
     = ((None, False), [ErrorFindingKey EIO 7])"
    by simp
  have "GetValueByKey (sampleDB \<lparr>store_directory = ''/data'',
      sampleDB = \<lparr>GetValueByString = (\<lambda>k. (None, False, None)),
                  GetValueByKey = (\<lambda>k. (Some (SampleValue ''x''), True, None))\<rparr>,
      bookmark = \<lparr>GetValueByString = (\<lambda>k. (None, False, None)),
                  GetValueByKey = (\<lambda>k. (None, False, None))\<rparr>\<rparr>) 7
     = (Some (SampleValue ''x''), True, None)"
    by simp
  from GetSignal_lossy [OF this]
  show "GetSignal \<lparr>store_directory = ''/data'',
      sampleDB = \<lparr>GetValueByString = (\<lambda>k. (None, False, None)),
                  GetValueByKey = (\<lambda>k. (Some (SampleValue ''x''), True, None))\<rparr>,
      bookmark = \<lparr>GetValueByString = (\<lambda>k. (None, False, None)),
                  GetValueByKey = (\<lambda>k. (None, False, None))\<rparr>\<rparr> 7
     = ((Some (SampleValue ''x''), True), [])"
    by simp
qed

subsection \<open>The size of a directory\<close>

lemma first_error_append:
  "first_error (xs @ ys) = (case first_error xs of Some e \<Rightarrow> Some e | None \<Rightarrow> first_error ys)"
  by (induction xs) (auto simp: first_error_def step_ok_def split: option.splits)

lemma first_error_None_append:
  "first_error xs = None \<Longrightarrow> takeWhile step_ok (xs @ ys) = xs @ takeWhile step_ok ys"
  by (induction xs) (auto simp: first_error_def step_ok_def split: if_splits)

lemma first_error_None: "first_error xs = None \<Longrightarrow> takeWhile step_ok xs = xs"
  using first_error_None_append [of xs "[]"] by simp

lemma first_error_Some:
  "first_error xs = Some e \<Longrightarrow> takeWhile step_ok (xs @ ys) = takeWhile step_ok xs"
  by (induction xs) (auto simp: first_error_def step_ok_def split: if_splits)

text \<open>
  The walk with the function of \<open>DirSize\<close> stops at the first step that reports an
  error, returns that error, and has added up the steps before it.
\<close>

lemma walk_DirSize_step:
  "walk DirSize_step path n s =
     (first_error (steps n), foldl counted s (takeWhile step_ok (steps n)))"
  "walk_names DirSize_step path ns s =
     (first_error (steps_names ns), foldl counted s (takeWhile step_ok (steps_names ns)))"
proof (induction DirSize_step path n s and DirSize_step path ns s rule: walk_walk_names.induct)
  case (1 path err s)
  then show ?case by (simp add: DirSize_step_def first_error_def step_ok_def)
next
  case (2 path n s)
  then show ?case by (simp add: DirSize_step_def first_error_def step_ok_def counted_def)
next
  case (3 path n err s)
  then show ?case by (simp add: DirSize_step_def first_error_def step_ok_def)
next
  case (4 path n names s)
  have "DirSize_step path (Some \<lparr>IsDir = True, Size = n\<rparr>) None s = (None, s)"
    by (simp add: DirSize_step_def)
  with 4 show ?case
    by (simp add: first_error_def step_ok_def counted_def)
next
  case (5 path s)
  then show ?case by (simp add: first_error_def)
next
  case (6 path name child names s)
  show ?case
  proof (cases "first_error (steps child)")
    case None
    with 6 show ?thesis
      by (simp add: first_error_append first_error_None first_error_None_append
            del: filepath_Join.simps)
  next
    case (Some e)
    with 6 show ?thesis
      by (simp add: first_error_append first_error_Some del: filepath_Join.simps)
  qed
qed

text \<open>
  A number below \<open>2 ^ 53\<close> in absolute value is converted exactly.
\<close>

lemma float64_exact: "\<bar>i\<bar> < 2 ^ 53 \<Longrightarrow> float64 i = of_int i"
proof -
  assume "\<bar>i\<bar> < 2 ^ 53"
  then have "float64_shift \<bar>i\<bar> = 0" by (subst float64_shift.simps) simp
  moreover have "sgn i * \<bar>i\<bar> = i" by (simp add: mult_sgn_abs)
  ultimately have "float64 i = of_int (sgn i * \<bar>i\<bar>)"
    by (simp add: float64_def Let_def del: of_int_mult)
  then show ?thesis by (simp add: mult_sgn_abs del: of_int_mult)
qed

text \<open>
  C9, as the code has it. The claim that \<open>DirSize\<close> returns zero whenever a step of
  the walk reports an error does not hold: in a directory with a file \<open>a\<close> of 10 bytes,
  a subdirectory \<open>b\<close> that cannot be listed and a file \<open>c\<close> of 7 bytes, the walk ends
  with the error of \<open>b\<close>, and \<open>DirSize\<close> and \<open>getFileSize\<close> return 10.
\<close>

theorem DirSize_partial_sum_counterexample:
  "fst (filepath_Walk ''/data''
          (Directory 4096
             [(''a'', Regular 10), (''b'', Unreadable 4096 EACCES), (''c'', Regular 7)])
          DirSize_step 0) = Some EACCES
   \<and> DirSize ''/data''
         (Directory 4096
            [(''a'', Regular 10), (''b'', Unreadable 4096 EACCES), (''c'', Regular 7)]) = 10
   \<and> getFileSize
         \<lparr>store_directory = ''/data'',
            sampleDB = \<lparr>GetValueByString = (\<lambda>k. (None, False, None)),
                        GetValueByKey = (\<lambda>k. (None, False, None))\<rparr>,
            bookmark = \<lparr>GetValueByString = (\<lambda>k. (None, False, None)),
                        GetValueByKey = (\<lambda>k. (None, False, None))\<rparr>\<rparr>
         (Directory 4096
            [(''a'', Regular 10), (''b'', Unreadable 4096 EACCES), (''c'', Regular 7)]) \<noteq> 0"
  by (simp add: getFileSize_def DirSize_def filepath_Walk_def DirSize_step_def wrap64_def
        float64_exact)

text \<open>
  C9, amended. The walk returns the error of the first step that reports one, and
  \<open>DirSize\<close> discards it. \<open>DirSize\<close> and \<open>getFileSize\<close> return, as a float64, the sizes of
  the entries that are not directories, summed (as an int64) over the steps before
  that first error. When the root itself cannot be examined or listed, no step comes
  before the error and the result is zero.
\<close>

theorem DirSize_sums_steps_before_error:
  "fst (filepath_Walk path at_root DirSize_step 0) = first_error (steps at_root)
   \<and> DirSize path at_root = float64 (foldl counted 0 (takeWhile step_ok (steps at_root)))
   \<and> getFileSize dbs at_root = float64 (foldl counted 0 (takeWhile step_ok (steps at_root)))
   \<and> DirSize path (Missing err) = 0
   \<and> DirSize path (Unreadable n err) = 0"
  by (simp add: getFileSize_def DirSize_def filepath_Walk_def walk_DirSize_step step_ok_def
        DirSize_step_def float64_exact)


section \<open>Properties of the library functions\<close>

subsection \<open>Joining a file name to a directory\<close>

lemma elements_not_Nil: "elements s \<noteq> []"
  by (induction s) (auto split: list.splits)

lemma elements_no_separator: "CHR ''/'' \<notin> set x \<Longrightarrow> elements x = [x]"
  by (induction x) auto

lemma elements_append:
  "CHR ''/'' \<notin> set x \<Longrightarrow> elements (d @ CHR ''/'' # x) = elements d @ [x]"
proof (induction d)
  case Nil
  then show ?case by (simp add: elements_no_separator)
next
  case (Cons c d)
  then show ?case
    using elements_not_Nil [of d] by (cases "elements d") auto
qed

lemma clean_elements_append:
  "plain_element x \<Longrightarrow>
   clean_elements rooted out (es @ [x]) = clean_elements rooted out es @ [x]"
  by (induction es arbitrary: out) (auto simp: plain_element_def split: list.splits)

lemma strings_Join_append:
  "strings_Join (ys @ [x]) sep = (if ys = [] then x else strings_Join ys sep @ sep @ x)"
  by (induction ys sep rule: strings_Join.induct) auto

lemma filepath_Base_plain:
  assumes "x \<noteq> []" "CHR ''/'' \<notin> set x"
  shows "filepath_Base x = x" and "filepath_Base (p @ CHR ''/'' # x) = x"
proof -
  have "last x \<in> set x" using assms by simp
  with assms have "last x \<noteq> CHR ''/''" by metis
  then have hd: "hd (rev x) \<noteq> CHR ''/''" "rev x \<noteq> []"
    using assms by (simp_all add: hd_rev)
  then have dw: "dropWhile (\<lambda>c. c = CHR ''/'') (rev x @ ys) = rev x @ ys" for ys
    by (cases "rev x") auto
  have tw: "takeWhile (\<lambda>c. c \<noteq> CHR ''/'') (rev x @ CHR ''/'' # ys) = rev x" for ys
    using assms by (subst takeWhile_append2) auto
  have tw0: "takeWhile (\<lambda>c. c \<noteq> CHR ''/'') (rev x) = rev x"
    using assms by (auto simp: takeWhile_eq_all_conv)
  have dw0: "dropWhile (\<lambda>c. c = CHR ''/'') (rev x) = rev x"
    using dw [of "[]"] by simp
  show "filepath_Base x = x"
    using assms by (simp add: filepath_Base_def Let_def dw0 tw0)
  have "rev (p @ CHR ''/'' # x) = rev x @ CHR ''/'' # rev p" by simp
  then show "filepath_Base (p @ CHR ''/'' # x) = x"
    using assms by (simp add: filepath_Base_def Let_def dw tw del: rev_append rev.simps)
qed

lemma filepath_Join_plain:
  assumes "plain_element x"
  shows "filepath_Join [d, x] = x \<or> (\<exists>p. filepath_Join [d, x] = p @ CHR ''/'' # x)"
proof (cases "d = []")
  case True
  have "hd x \<noteq> CHR ''/''" using assms by (cases x) (auto simp: plain_element_def)
  with True assms show ?thesis
    by (simp add: filepath_Clean_def plain_element_def elements_no_separator Let_def)
next
  case False
  define r where "r = (hd d = CHR ''/'')"
  define ys where "ys = clean_elements r [] (elements d)"
  have x: "CHR ''/'' \<notin> set x" "x \<noteq> []" using assms by (auto simp: plain_element_def)
  have "clean_elements r [] (elements (d @ CHR ''/'' # x)) = ys @ [x]"
    using assms x by (simp add: elements_append clean_elements_append ys_def)
  then have out: "strings_Join (clean_elements r [] (elements (d @ CHR ''/'' # x))) ''/''
      = (if ys = [] then x else strings_Join ys ''/'' @ CHR ''/'' # x)"
    by (simp add: strings_Join_append)
  have hd: "hd (d @ CHR ''/'' # x) = hd d" using False by simp
  have J: "filepath_Join [d, x] = filepath_Clean (d @ CHR ''/'' # x)"
    using False by simp
  show ?thesis
  proof (cases r)
    case True
    then have "filepath_Join [d, x] = CHR ''/'' # (if ys = [] then x else strings_Join ys ''/'' @ CHR ''/'' # x)"
      unfolding J filepath_Clean_def using out hd by (simp add: r_def Let_def)
    then show ?thesis
      by (cases "ys = []") (auto intro: exI [of _ "[]"] exI [of _ "CHR ''/'' # strings_Join ys ''/''"])
  next
    case False
    then have "filepath_Join [d, x] = (if ys = [] then x else strings_Join ys ''/'' @ CHR ''/'' # x)"
      unfolding J filepath_Clean_def using out hd x by (simp add: r_def Let_def)
    then show ?thesis by (cases "ys = []") auto
  qed
qed

lemma filepath_Base_Join:
  assumes "plain_element x"
  shows "filepath_Base (filepath_Join [d, x]) = x"
proof -
  have x: "x \<noteq> []" "CHR ''/'' \<notin> set x" using assms by (auto simp: plain_element_def)
  from filepath_Join_plain [OF assms, of d] show ?thesis
    using filepath_Base_plain [OF x] by (auto simp del: filepath_Join.simps)
qed

lemma filepath_Join_not_Nil: "plain_element x \<Longrightarrow> filepath_Join [d, x] \<noteq> []"
  using filepath_Join_plain [of x d] by (auto simp: plain_element_def simp del: filepath_Join.simps)

subsection \<open>Writing and reading an index\<close>

lemma is_digit_char_of: "0 \<le> u \<Longrightarrow> u < 10 \<Longrightarrow> is_digit (char_of (48 + u :: int))"
  by (simp add: is_digit_def)

lemma digit_value_char_of: "0 \<le> u \<Longrightarrow> u < 10 \<Longrightarrow> digit_value (char_of (48 + u :: int)) = u"
  by (simp add: digit_value_def)

lemma format_digits_props:
  "0 \<le> u \<Longrightarrow>
     format_digits u \<noteq> [] \<and> list_all is_digit (format_digits u)
     \<and> foldl (\<lambda>n ch. n * 10 + digit_value ch) 0 (format_digits u) = u"
proof (induction u rule: format_digits.induct)
  case (1 u)
  show ?case
  proof (cases "u < 10")
    case True
    with 1 show ?thesis
      by (subst (1 2 3) format_digits.simps) (simp add: is_digit_char_of digit_value_char_of)
  next
    case False
    with 1 have IH: "format_digits (u div 10) \<noteq> [] \<and> list_all is_digit (format_digits (u div 10))
        \<and> foldl (\<lambda>n ch. n * 10 + digit_value ch) 0 (format_digits (u div 10)) = u div 10"
      by simp
    have m: "0 \<le> u mod 10" "u mod 10 < 10" by simp_all
    from False IH show ?thesis
      by (subst (1 2 3) format_digits.simps)
         (simp add: is_digit_char_of [OF m] digit_value_char_of [OF m])
  qed
qed

lemma is_digit_not_special:
  "is_digit c \<Longrightarrow> c \<noteq> CHR ''-'' \<and> c \<noteq> CHR ''+'' \<and> c \<noteq> CHR ''.'' \<and> c \<noteq> CHR ''/''"
  by (auto simp: is_digit_def)

lemma strconv_Atoi_format_d:
  assumes "in_int64 i"
  shows "strconv_Atoi (format_d i) = Inr i"
proof (cases "i < 0")
  case True
  then have "0 \<le> - i" by simp
  from format_digits_props [OF this] True assms show ?thesis
    by (simp add: strconv_Atoi_def format_d_def Let_def)
next
  case False
  then have "0 \<le> i" by simp
  from format_digits_props [OF this]
  have p: "format_digits i \<noteq> []" "list_all is_digit (format_digits i)"
    "foldl (\<lambda>n ch. n * 10 + digit_value ch) 0 (format_digits i) = i" by simp_all
  then have "is_digit (hd (format_digits i))" by (cases "format_digits i") auto
  then have "hd (format_digits i) \<noteq> CHR ''-''" "hd (format_digits i) \<noteq> CHR ''+''"
    using is_digit_not_special by blast+
  with p False assms show ?thesis
    by (simp add: strconv_Atoi_def format_d_def Let_def)
qed

lemma format_d_chars:
  assumes "c \<in> set (format_d i)"
  shows "c \<noteq> CHR ''.'' \<and> c \<noteq> CHR ''/''"
proof -
  have "list_all is_digit (format_digits (if i < 0 then - i else i))"
    using format_digits_props [of "if i < 0 then - i else i"] by simp
  then have "\<forall>c\<in>set (format_digits (if i < 0 then - i else i)). is_digit c"
    by (simp add: list_all_iff)
  with assms have "is_digit c \<or> c = CHR ''-''"
    by (auto simp: format_d_def split: if_splits)
  then show ?thesis using is_digit_not_special by auto
qed

lemma format_d_not_Nil: "format_d i \<noteq> []"
  using format_digits_props [of "if i < 0 then - i else i"]
  by (auto simp: format_d_def)

lemma strings_Replace_suffix_only:
  "CHR ''.'' \<notin> set p \<Longrightarrow> strings_Replace (p @ ''.committed'') ''.committed'' [] (- 1) = p"
proof (induction p)
  case Nil
  show ?case
    by (subst strings_Replace.simps, simp add: strings_HasPrefix_def)
       (subst strings_Replace.simps, simp)
next
  case (Cons c p)
  then have "\<not> strings_HasPrefix ((c # p) @ ''.committed'') ''.committed''"
    by (auto simp: strings_HasPrefix_def)
  with Cons show ?case
    by (subst strings_Replace.simps) simp
qed

lemma strings_ReplaceAll_committed:
  "strings_ReplaceAll (format_d i @ ''.committed'') ''.committed'' [] = format_d i"
  unfolding strings_ReplaceAll_def
  using format_d_chars [of _ i] by (intro strings_Replace_suffix_only) blast

lemma plain_element_format_d:
  "sfx \<noteq> [] \<Longrightarrow> CHR ''/'' \<notin> set sfx \<Longrightarrow> plain_element (format_d i @ CHR ''.'' # sfx)"
  using format_d_chars [of _ i] format_d_not_Nil [of i]
  by (cases "format_d i") (auto simp: plain_element_def)

lemma strings_HasSuffix_append: "strings_HasSuffix (p @ sfx) sfx"
  by (simp add: strings_HasSuffix_def)


section \<open>Properties of the file system and of the queue's names\<close>

subsection \<open>Removing files, creating directories\<close>






lemma filepath_Glob_set:
  assumes "\<not> hasMeta d" and "filepath_Glob fs d sfx = Inr ms"
  shows "set ms = {k \<in> fst ` set fs. glob_match d sfx k}" and "distinct ms"
    and "length ms = length (filter (glob_match d sfx) (remdups (map fst fs)))"
  using assms by (force simp: filepath_Glob_def)+






lemma sort_Ints_first:
  assumes "ids \<noteq> []"
  shows "sort_Ints ids ! 0 \<in> set ids" and "\<forall>i\<in>set ids. sort_Ints ids ! 0 \<le> i"
proof -
  have "sort ids ! 0 \<in> set (sort ids)" using assms by (intro nth_mem) simp
  then show "sort_Ints ids ! 0 \<in> set ids" unfolding sort_Ints_def set_sort .
  show "\<forall>i\<in>set ids. sort_Ints ids ! 0 \<le> i"
  proof
    fix i assume "i \<in> set ids"
    then have "i \<in> set (sort ids)" by simp
    then obtain n where "n < length (sort ids)" "sort ids ! n = i"
      by (metis in_set_conv_nth)
    then show "sort_Ints ids ! 0 \<le> i"
      using sorted_nth_mono [of "sort ids" 0 n] by (simp add: sort_Ints_def)
  qed
qed


subsection \<open>The entries of the queue's directory\<close>







lemma glob_match_entry:
  assumes "plain_element x" and "strings_HasSuffix x sfx"
  shows "glob_match d sfx (filepath_Join [d, x])"
  using assms filepath_Base_Join [of x d]
  by (simp add: glob_match_def del: filepath_Join.simps)

lemma committed_name:
  assumes "in_int64 i"
  shows "glob_match d ''.committed'' (filepath_Join [d, format_d i @ ''.committed''])"
    and "entry_index d (filepath_Join [d, format_d i @ ''.committed'']) = Some i"
    and "filepath_Join [d, format_d i @ ''.committed''] \<noteq> []"
proof -
  have p: "plain_element (format_d i @ ''.committed'')"
    using plain_element_format_d [of "''committed''" i] by simp
  then show "glob_match d ''.committed'' (filepath_Join [d, format_d i @ ''.committed''])"
    by (intro glob_match_entry) (simp_all add: strings_HasSuffix_append)
  from p have "filepath_Base (filepath_Join [d, format_d i @ ''.committed''])
      = format_d i @ ''.committed''"
    by (rule filepath_Base_Join)
  then show "entry_index d (filepath_Join [d, format_d i @ ''.committed'']) = Some i"
    using assms
    by (simp add: entry_index_def strings_ReplaceAll_committed strconv_Atoi_format_d
          del: filepath_Join.simps)
  from p show "filepath_Join [d, format_d i @ ''.committed''] \<noteq> []"
    by (rule filepath_Join_not_Nil)
qed


lemma in_int64_wrap64: "in_int64 (wrap64 i)"
  by (simp add: in_int64_def wrap64_def) 

lemma wrap64_id: "in_int64 i \<Longrightarrow> wrap64 i = i"
  by (simp add: in_int64_def wrap64_def)

section \<open>Properties of the durable queue\<close>

text \<open>
  C1 (two-phase commit), on the code. The queue is opened on the empty directory
  \<open>/tmp/q\<close>. \<open>AddUncommited\<close> of the payload \<open>A\<close> returns the handle
  \<open>/tmp/q/1.uncommitted\<close>, which is the full path of the file. \<open>Commit\<close> joins the
  directory onto the handle once more and asks to rename
  \<open>/tmp/q/tmp/q/1.uncommitted\<close>, which does not exist: it returns the error, the file
  stays uncommitted, and \<open>Next\<close> finds nothing, where the claim expects the
  payload \<open>A\<close> with found = true.
\<close>

theorem Commit_misses_own_handle:
  "newQueue [] ''/tmp/q''
     = Inr (\<lparr>directory = ''/tmp/q'', maxindex = 0\<rparr>, [(''/tmp'', Dir), (''/tmp/q'', Dir)])
   \<and> AddUncommited codec \<lparr>directory = ''/tmp/q'', maxindex = 0\<rparr>
        [(''/tmp'', Dir), (''/tmp/q'', Dir)] ''A''
     = ((''/tmp/q/1.uncommitted'', None), \<lparr>directory = ''/tmp/q'', maxindex = 1\<rparr>,
        [(''/tmp'', Dir), (''/tmp/q'', Dir),
         (''/tmp/q/1.uncommitted'', File (snappy_Encode codec ''A''))])
   \<and> filepath_Join [''/tmp/q'', ''/tmp/q/1.uncommitted''] = ''/tmp/q/tmp/q/1.uncommitted''
   \<and> Commit \<lparr>directory = ''/tmp/q'', maxindex = 1\<rparr>
        [(''/tmp'', Dir), (''/tmp/q'', Dir),
         (''/tmp/q/1.uncommitted'', File (snappy_Encode codec ''A''))]
        [''/tmp/q/1.uncommitted'']
     = (Some ENOENT,
        [(''/tmp'', Dir), (''/tmp/q'', Dir),
         (''/tmp/q/1.uncommitted'', File (snappy_Encode codec ''A''))])
   \<and> Next codec \<lparr>directory = ''/tmp/q'', maxindex = 1\<rparr>
        [(''/tmp'', Dir), (''/tmp/q'', Dir),
         (''/tmp/q/1.uncommitted'', File (snappy_Encode codec ''A''))] enc
     = ([], [], False, False)"
  by code_simp

subsection \<open>Opening the queue\<close>




lemma filepath_Glob_empty:
  assumes "\<not> hasMeta d"
  shows "filepath_Glob fs d sfx = Inr [] \<longleftrightarrow> (\<forall>k\<in>fst ` set fs. \<not> glob_match d sfx k)"
proof -
  have "sort_key filepath_Base xs = [] \<longleftrightarrow> xs = []" for xs :: "string list"
    by (metis length_0_conv length_sort)
  with assms show ?thesis
    by (force simp: filepath_Glob_def filter_empty_conv)
qed


lemma AddCommited_result:
  assumes "AddCommited codec q fs data = ((h, None), q', fs')"
  shows "h = filepath_Join [directory q, format_d (wrap64 (maxindex q + 1)) @ ''.committed'']"
    and "fs' = AList.update h (File (snappy_Encode codec data)) fs"
    and "q' = q\<lparr>maxindex := wrap64 (maxindex q + 1)\<rparr>"
  using assms
  by (auto simp: AddCommited_def writeFile_def os_WriteFile_def Let_def
           split: if_splits prod.splits simp del: filepath_Join.simps)



subsection \<open>Reading the oldest entry\<close>

lemma committed_ids_entry:
  "entry_index d m = Some i \<Longrightarrow> committed_ids [m] = [i]"
  by (auto simp: entry_index_def committed_ids_def split: sum.splits if_splits
           simp del: filepath_Join.simps)

lemma committed_ids_set:
  "set (committed_ids ms) = (\<lambda>m. hd (committed_ids [m])) ` set ms"
  by (auto simp: committed_ids_def)

lemma readFile_ok:
  "map_of fs name = Some (File bb) \<Longrightarrow> snappy_Decode codec bb = Inr payload \<Longrightarrow>
   readFile codec fs name enc = (payload, None)"
  by (simp add: readFile_def os_ReadFile_def)

lemma Next_lowest_entry:
  assumes "\<not> hasMeta (directory q)"
    and "filepath_Glob fs (directory q) ''.committed'' = Inr matches"
    and "\<forall>m'\<in>set matches. entry_index (directory q) m' \<noteq> None"
    and "m \<in> set matches" and "entry_index (directory q) m = Some i"
    and "\<forall>m'\<in>set matches. \<forall>j. entry_index (directory q) m' = Some j \<longrightarrow> i \<le> j"
    and "map_of fs m = Some (File bb)" and "snappy_Decode codec bb = Inr payload"
  shows "Next codec q fs enc = (payload, m, True, 1 < length matches)"
proof -
  let ?ids = "committed_ids matches"
  from assms(4) have ne: "matches \<noteq> []" by auto
  then have ine: "?ids \<noteq> []" by (simp add: committed_ids_def)
  have mem: "i \<in> set ?ids"
    using assms(4) committed_ids_entry [OF assms(5)]
    by (force simp: committed_ids_set)
  have low: "i \<le> k" if "k \<in> set ?ids" for k
  proof -
    from that obtain m' where m': "m' \<in> set matches" "k = hd (committed_ids [m'])"
      by (auto simp: committed_ids_set)
    with assms(3) obtain j where j: "entry_index (directory q) m' = Some j" by auto
    with m' committed_ids_entry [OF j] have "k = j" by simp
    with assms(6) m' j show ?thesis by auto
  qed
  from sort_Ints_first [OF ine] mem low have first: "sort_Ints ?ids ! 0 = i"
    by (metis order_antisym)
  from assms(5) have name: "filepath_Join [directory q, format_d i @ ''.committed''] = m"
    by (auto simp: entry_index_def split: sum.splits if_splits simp del: filepath_Join.simps)
  have len: "length (sort_Ints ?ids) = length matches"
    by (simp add: sort_Ints_def committed_ids_def)
  from ne assms(2) first name len readFile_ok [OF assms(7,8), of enc]
  show ?thesis
    by (simp add: Next_def Let_def del: filepath_Join.simps)
qed



subsection \<open>Allocating an index\<close>




lemma committed_ids_zero:
  "m \<in> set ms \<Longrightarrow>
   strconv_Atoi (strings_ReplaceAll (filepath_Base m) ''.committed'' []) = Inl e \<Longrightarrow>
   0 \<in> set (committed_ids ms)"
  by (force simp: committed_ids_def)





subsection \<open>Writing and reading back\<close>

lemma distinct_singleton: "distinct xs \<Longrightarrow> set xs = {h} \<Longrightarrow> xs = [h]"
proof (cases xs)
  case Nil
  assume "set xs = {h}" with Nil show ?thesis by simp
next
  case (Cons x ys)
  assume d: "distinct xs" and s: "set xs = {h}"
  with Cons have "x = h" by auto
  moreover from d s Cons have "ys = []" by (cases ys) auto
  ultimately show ?thesis using Cons by simp
qed

lemma writeFile_result:
  "writeFile codec fs name data = (None, fs') \<Longrightarrow>
   fs' = AList.update name (File (snappy_Encode codec data)) fs"
  by (auto simp: writeFile_def os_WriteFile_def split: if_splits)

text \<open>
  C5 (round trip). The compression library is a parameter; it is assumed that
  decoding what it has encoded gives the data back. Then \<open>readFile\<close> returns the
  data that a successful \<open>writeFile\<close> has written under the same name, and on a
  queue with nothing committed, \<open>Next\<close> after a successful \<open>AddCommited\<close> returns
  the data that was added, under the handle that \<open>AddCommited\<close> returned.
\<close>

theorem write_then_read_round_trip:
  assumes "\<forall>data. snappy_Decode codec (snappy_Encode codec data) = Inr data"
  shows "(\<forall>fs name data fs' enc.
            writeFile codec fs name data = (None, fs') \<longrightarrow>
            readFile codec fs' name enc = (data, None))
       \<and> (\<forall>q fs data h q' fs' enc.
            \<not> hasMeta (directory q) \<longrightarrow>
            filepath_Glob fs (directory q) ''.committed'' = Inr [] \<longrightarrow>
            AddCommited codec q fs data = ((h, None), q', fs') \<longrightarrow>
            Next codec q' fs' enc = (data, h, True, False))"
proof (intro conjI allI impI)
  fix fs name data fs' enc
  assume "writeFile codec fs name data = (None, fs')"
  then have "fs' = AList.update name (File (snappy_Encode codec data)) fs"
    by (rule writeFile_result)
  then have "map_of fs' name = Some (File (snappy_Encode codec data))"
    by (simp add: update_conv')
  with assms show "readFile codec fs' name enc = (data, None)"
    by (simp add: readFile_ok)
next
  fix q fs data h q' fs' enc
  assume m: "\<not> hasMeta (directory q)"
    and empty: "filepath_Glob fs (directory q) ''.committed'' = Inr []"
    and add: "AddCommited codec q fs data = ((h, None), q', fs')"
  let ?d = "directory q"
  let ?i = "wrap64 (maxindex q + 1)"
  from AddCommited_result [OF add]
  have h: "h = filepath_Join [?d, format_d ?i @ ''.committed'']"
    and fs': "fs' = AList.update h (File (snappy_Encode codec data)) fs"
    and q': "directory q' = ?d" by simp_all
  have i: "in_int64 ?i" by (rule in_int64_wrap64)
  from committed_name [OF i, of ?d] h
  have gm: "glob_match ?d ''.committed'' h" and ei: "entry_index ?d h = Some ?i" by simp_all
  obtain ms where g: "filepath_Glob fs' ?d ''.committed'' = Inr ms"
    using m by (simp add: filepath_Glob_def)
  have "set ms = {h}"
    using filepath_Glob_set(1) [OF m g] gm empty filepath_Glob_empty [OF m, of fs "''.committed''"]
    by (auto simp: fs' dom_update)
  with filepath_Glob_set(2) [OF m g] have ms: "ms = [h]" by (rule distinct_singleton)
  have f: "map_of fs' h = Some (File (snappy_Encode codec data))"
    by (simp add: fs' update_conv')
  from assms have d: "snappy_Decode codec (snappy_Encode codec data) = Inr data" by simp
  have "Next codec q' fs' enc = (data, h, True, 1 < length ms)"
  proof (rule Next_lowest_entry [OF _ _ _ _ _ _ f d])
    show "\<not> hasMeta (directory q')" using m q' by simp
    show "filepath_Glob fs' (directory q') ''.committed'' = Inr ms" using g q' by simp
    show "\<forall>m'\<in>set ms. entry_index (directory q') m' \<noteq> None" using ms ei q' by simp
    show "h \<in> set ms" using ms by simp
    show "entry_index (directory q') h = Some ?i" using ei q' by simp
    show "\<forall>m'\<in>set ms. \<forall>j. entry_index (directory q') m' = Some j \<longrightarrow> ?i \<le> j"
      using ms ei q' by simp
  qed
  with ms show "Next codec q' fs' enc = (data, h, True, False)" by simp
qed

theorem write_then_read_round_trip_witness:
  "(\<forall>data. snappy_Decode marker_codec (snappy_Encode marker_codec data) = Inr data)
   \<and> writeFile marker_codec [(''/q'', Dir)] ''/q/1.committed'' ''payload''
       = (None, [(''/q'', Dir), (''/q/1.committed'', File ''spayload'')])
   \<and> readFile marker_codec [(''/q'', Dir), (''/q/1.committed'', File ''spayload'')]
        ''/q/1.committed'' [] = (''payload'', None)
   \<and> \<not> hasMeta ''/q''
   \<and> filepath_Glob [(''/q'', Dir)] ''/q'' ''.committed'' = Inr []
   \<and> AddCommited marker_codec \<lparr>directory = ''/q'', maxindex = 0\<rparr> [(''/q'', Dir)] ''payload''
       = ((''/q/1.committed'', None), \<lparr>directory = ''/q'', maxindex = 1\<rparr>,
          [(''/q'', Dir), (''/q/1.committed'', File ''spayload'')])
   \<and> Next marker_codec \<lparr>directory = ''/q'', maxindex = 1\<rparr>
        [(''/q'', Dir), (''/q/1.committed'', File ''spayload'')] []
       = (''payload'', ''/q/1.committed'', True, False)"
proof -
  let ?fs' = "[(''/q'', Dir), (''/q/1.committed'', File ''spayload'')]"
  have c: "\<forall>data. snappy_Decode marker_codec (snappy_Encode marker_codec data) = Inr data"
    by (simp add: marker_codec_def)
  have w: "writeFile marker_codec [(''/q'', Dir)] ''/q/1.committed'' ''payload'' = (None, ?fs')"
    by code_simp
  have m: "\<not> hasMeta (directory \<lparr>directory = ''/q'', maxindex = 0\<rparr>)" by code_simp
  have g: "filepath_Glob [(''/q'', Dir)] (directory \<lparr>directory = ''/q'', maxindex = 0\<rparr>)
             ''.committed'' = Inr []" by code_simp
  have a: "AddCommited marker_codec \<lparr>directory = ''/q'', maxindex = 0\<rparr> [(''/q'', Dir)]
             ''payload''
       = ((''/q/1.committed'', None), \<lparr>directory = ''/q'', maxindex = 1\<rparr>, ?fs')"
    by code_simp
  note t = write_then_read_round_trip [OF c]
  from t w have r: "readFile marker_codec ?fs' ''/q/1.committed'' [] = (''payload'', None)"
    by blast
  from t m g a have n: "Next marker_codec \<lparr>directory = ''/q'', maxindex = 1\<rparr> ?fs' []
       = (''payload'', ''/q/1.committed'', True, False)"
    by blast
  from c w r m g a n show ?thesis by simp
qed

subsection \<open>Failed reads and foreign names\<close>

lemma Next_read_error:
  assumes "filepath_Glob fs (directory q) ''.committed'' = Inr matches" and "matches \<noteq> []"
    and "snd (readFile codec fs
           (filepath_Join [directory q,
              format_d (sort_Ints (committed_ids matches) ! 0) @ ''.committed'']) enc) = Some e"
  shows "Next codec q fs enc = ([], [], False, False)"
  using assms
  by (cases "readFile codec fs
           (filepath_Join [directory q,
              format_d (sort_Ints (committed_ids matches) ! 0) @ ''.committed'']) enc")
     (simp add: Next_def Let_def del: filepath_Join.simps)




lemma format_d_0: "format_d 0 = ''0''"
  by code_simp

text \<open>
  C10, amended. Let the pattern \<open>*.committed\<close> match a name \<open>m\<close> whose base, with every
  occurrence of \<open>.committed\<close> removed, is rejected by \<open>Atoi\<close>. The loop records index 0
  for it. If no other matched name stands for a negative number, 0 is the lowest
  index; if moreover no regular file \<open>0.committed\<close> exists in the directory, \<open>Next\<close>
  returns found = false, although Committed files are present.
\<close>

theorem undecodable_name_hides_queue:
  assumes "\<not> hasMeta (directory q)"
    and "filepath_Glob fs (directory q) ''.committed'' = Inr matches"
    and "m \<in> set matches"
    and "strconv_Atoi (strings_ReplaceAll (filepath_Base m) ''.committed'' []) = Inl e"
    and "\<forall>m'\<in>set matches. \<forall>k.
           strconv_Atoi (strings_ReplaceAll (filepath_Base m') ''.committed'' []) = Inr k
           \<longrightarrow> 0 \<le> k"
    and "\<not> is_file fs (filepath_Join [directory q, ''0.committed''])"
  shows "committed_ids [m] = [0]
       \<and> sort_Ints (committed_ids matches) ! 0 = 0
       \<and> Next codec q fs enc = ([], [], False, False)"
proof (intro conjI)
  let ?ids = "committed_ids matches"
  from assms(4) show "committed_ids [m] = [0]" by (simp add: committed_ids_def)
  from assms(3,4) have z: "0 \<in> set ?ids" by (rule committed_ids_zero)
  then have ne: "?ids \<noteq> []" by auto
  have nonneg: "0 \<le> k" if "k \<in> set ?ids" for k
    using that assms(5) by (auto simp: committed_ids_def split: sum.splits)
  from sort_Ints_first [OF ne] z nonneg show first: "sort_Ints ?ids ! 0 = 0"
    by (metis order_antisym)
  let ?name = "filepath_Join [directory q, ''0.committed'']"
  have "\<not> is_file fs n \<Longrightarrow> \<exists>err. os_ReadFile fs n = Inl err" for n
    by (auto simp: os_ReadFile_def is_file_def split: option.splits entry.splits)
  from this [OF assms(6)] have "\<exists>err. os_ReadFile fs ?name = Inl err" .
  then obtain err where "readFile codec fs ?name enc = (enc, Some err)"
    by (auto simp: readFile_def)
  with first assms(2,3) show "Next codec q fs enc = ([], [], False, False)"
    by (intro Next_read_error [of fs q matches codec enc err])
       (auto simp: format_d_0 simp del: filepath_Join.simps)
qed

theorem undecodable_name_hides_queue_witness:
  "\<not> hasMeta ''/q''
   \<and> filepath_Glob [(''/q'', Dir), (''/q/x.committed'', File ''sA''), (''/q/3.committed'', File ''sB'')]
        ''/q'' ''.committed'' = Inr [''/q/3.committed'', ''/q/x.committed'']
   \<and> strconv_Atoi (strings_ReplaceAll (filepath_Base ''/q/x.committed'') ''.committed'' [])
       = Inl ErrSyntax
   \<and> strconv_Atoi (strings_ReplaceAll (filepath_Base ''/q/3.committed'') ''.committed'' [])
       = Inr 3
   \<and> \<not> is_file [(''/q'', Dir), (''/q/x.committed'', File ''sA''), (''/q/3.committed'', File ''sB'')]
          (filepath_Join [''/q'', ''0.committed''])
   \<and> committed_ids [''/q/x.committed''] = [0]
   \<and> Next marker_codec \<lparr>directory = ''/q'', maxindex = 3\<rparr>
        [(''/q'', Dir), (''/q/x.committed'', File ''sA''), (''/q/3.committed'', File ''sB'')] []
       = ([], [], False, False)"
proof -
  let ?fs = "[(''/q'', Dir), (''/q/x.committed'', File ''sA''),
              (''/q/3.committed'', File ''sB'')]"
  let ?q = "\<lparr>directory = ''/q'', maxindex = 3\<rparr>"
  have m: "\<not> hasMeta (directory ?q)" by code_simp
  have g: "filepath_Glob ?fs (directory ?q) ''.committed''
             = Inr [''/q/3.committed'', ''/q/x.committed'']" by code_simp
  have mem: "''/q/x.committed'' \<in> set [''/q/3.committed'', ''/q/x.committed'']" by simp
  have ax: "strconv_Atoi (strings_ReplaceAll (filepath_Base ''/q/x.committed'') ''.committed'' [])
       = Inl ErrSyntax" by code_simp
  have a3: "strconv_Atoi (strings_ReplaceAll (filepath_Base ''/q/3.committed'') ''.committed'' [])
       = Inr 3" by code_simp
  have nn: "\<forall>m'\<in>set [''/q/3.committed'', ''/q/x.committed'']. \<forall>k.
           strconv_Atoi (strings_ReplaceAll (filepath_Base m') ''.committed'' []) = Inr k
           \<longrightarrow> 0 \<le> k"
    using ax a3 by simp
  have nf: "\<not> is_file ?fs (filepath_Join [directory ?q, ''0.committed''])" by code_simp
  from undecodable_name_hides_queue [OF m g mem ax nn nf, of marker_codec "[]"]
  have "committed_ids [''/q/x.committed''] = [0]
      \<and> Next marker_codec ?q ?fs [] = ([], [], False, False)" by simp
  with m g ax a3 nf show ?thesis by simp
qed

text \<open>
  C10, as the code has it. Next to the file \<open>x.committed\<close>, for which index 0 is
  recorded, the directory holds \<open>-1.committed\<close>; no \<open>0.committed\<close> exists. \<open>Atoi\<close>
  accepts \<open>-1\<close>, which is the lowest index, and \<open>Next\<close> returns that file's payload
  with found = true.
\<close>

theorem negative_index_served_counterexample:
  "filepath_Glob [(''/q'', Dir), (''/q/x.committed'', File ''sA''), (''/q/-1.committed'', File ''sB'')]
      ''/q'' ''.committed'' = Inr [''/q/-1.committed'', ''/q/x.committed'']
   \<and> strconv_Atoi (strings_ReplaceAll (filepath_Base ''/q/x.committed'') ''.committed'' [])
       = Inl ErrSyntax
   \<and> committed_ids [''/q/-1.committed'', ''/q/x.committed''] = [- 1, 0]
   \<and> os_ReadFile [(''/q'', Dir), (''/q/x.committed'', File ''sA''), (''/q/-1.committed'', File ''sB'')]
        ''/q/0.committed'' = Inl ENOENT
   \<and> Next marker_codec \<lparr>directory = ''/q'', maxindex = 0\<rparr>
        [(''/q'', Dir), (''/q/x.committed'', File ''sA''), (''/q/-1.committed'', File ''sB'')] []
       = (''B'', ''/q/-1.committed'', True, True)"
  by code_simp

end
